theory Spec2Isabelle
  imports Complex_Main "HOL-Library.Sublist" "HOL-Library.AList"
begin

section \<open>Python strings\<close>

text \<open>
  A Python \<open>str\<close> is modelled as a \<open>string\<close> whose characters stand for code points
  (the model covers the code points below 256), so \<open>length\<close> is Python's \<open>len\<close>.
  \<open>isspace\<close> lists the code points below 256 that \<open>str.strip()\<close> removes.
\<close>

definition isspace :: "char \<Rightarrow> bool" where
  "isspace c = (c \<in> {CHR 0x09, CHR 0x0A, CHR 0x0B, CHR 0x0C, CHR 0x0D,
                     CHR 0x1C, CHR 0x1D, CHR 0x1E, CHR 0x1F, CHR 0x20,
                     CHR 0x85, CHR 0xA0})"

definition strip :: "string \<Rightarrow> string" where
  "strip s = rev (dropWhile isspace (rev (dropWhile isspace s)))"

text \<open>\<open>s.split("\n")\<close>: the pieces between line feeds; never the empty list.\<close>

fun split_nl :: "string \<Rightarrow> string list" where
  "split_nl [] = [[]]"
| "split_nl (c # cs) =
     (if c = CHR 0x0A then [] # split_nl cs
      else (case split_nl cs of [] \<Rightarrow> [[c]] | l # ls \<Rightarrow> (c # l) # ls))"

text \<open>\<open>sep.join(xs)\<close>.\<close>

fun join :: "string \<Rightarrow> string list \<Rightarrow> string" where
  "join sep [] = []"
| "join sep [x] = x"
| "join sep (x # y # ys) = x @ sep @ join sep (y # ys)"

text \<open>
  \<open>s.replace(old, new)\<close> for a non-empty \<open>old\<close>: the occurrences are replaced from the
  left and do not overlap.
\<close>

function replace :: "string \<Rightarrow> string \<Rightarrow> string \<Rightarrow> string" where
  "replace old new [] = []"
| "replace old new (c # cs) =
     (if old \<noteq> [] \<and> prefix old (c # cs)
      then new @ replace old new (drop (length old) (c # cs))
      else c # replace old new cs)"
  by pat_completeness auto
termination
  by (relation "measure (\<lambda>(old, new, s). length s)") (auto simp: neq_Nil_conv)

text \<open>
  Case folding of the letters A to Z, and the test behind the store's
  \<open>clause_text__icontains=snippet\<close> lookup: the snippet occurs in the text as a
  contiguous piece, letter case ignored.
\<close>

definition to_lower :: "char \<Rightarrow> char" where
  "to_lower c =
     (case map_of (zip ''ABCDEFGHIJKLMNOPQRSTUVWXYZ'' ''abcdefghijklmnopqrstuvwxyz'') c of
        None \<Rightarrow> c
      | Some l \<Rightarrow> l)"

definition icontains :: "string \<Rightarrow> string \<Rightarrow> bool" where
  "icontains t snippet = sublist (map to_lower snippet) (map to_lower t)"

section \<open>Clause segmentation (utils.py, extract_and_store_clauses, lines 15-32)\<close>

text \<open>
  \<open>raw_clauses = [p.strip() for p in full_text.split("\n") if p.strip()]\<close>, written over
  the list of lines that \<open>split\<close> returned.
\<close>

definition raw_clauses :: "string list \<Rightarrow> string list" where
  "raw_clauses ls = map strip (filter (\<lambda>p. strip p \<noteq> []) ls)"

text \<open>
  The loop of lines 22-29 over the remaining lines, carrying \<open>buffer\<close> and \<open>clauses\<close>;
  it returns both as they stand when the loop ends.
\<close>

fun merge_loop :: "string list \<Rightarrow> string \<Rightarrow> string list \<Rightarrow> string list \<times> string" where
  "merge_loop [] buffer clauses = (clauses, buffer)"
| "merge_loop (line # rest) buffer clauses =
     (if length line < 40 then merge_loop rest (buffer @ '' '' @ line) clauses
      else if buffer \<noteq> [] then merge_loop rest [] ((clauses @ [strip buffer]) @ [line])
      else merge_loop rest buffer (clauses @ [line]))"

text \<open>Lines 19-32: the loop from the empty buffer, then the final flush.\<close>

definition segment :: "string list \<Rightarrow> string list" where
  "segment raw =
     (case merge_loop raw [] [] of
        (clauses, buffer) \<Rightarrow> if buffer \<noteq> [] then clauses @ [strip buffer] else clauses)"

definition clauses_of_lines :: "string list \<Rightarrow> string list" where
  "clauses_of_lines ls = segment (raw_clauses ls)"

text \<open>Lines 15-32 from the page texts that the PDF library extracted.\<close>

definition clauses_of_pages :: "string list \<Rightarrow> string list" where
  "clauses_of_pages text_buffer = clauses_of_lines (split_nl (join [CHR 0x0A] text_buffer))"

text \<open>
  The grouping that the loop performs, written on its own: \<open>grouping ls g\<close> splits the
  lines \<open>g @ ls\<close> into consecutive groups, where \<open>g\<close> is the group still open. It serves to
  state what the segmenter keeps of its input.
\<close>

fun grouping :: "string list \<Rightarrow> string list \<Rightarrow> string list list" where
  "grouping [] g = (if g = [] then [] else [g])"
| "grouping (line # rest) g =
     (if length line < 40 then grouping rest (g @ [line])
      else (if g = [] then [] else [g]) @ [line] # grouping rest [])"

definition trimmed :: "string \<Rightarrow> bool" where
  "trimmed s = (s \<noteq> [] \<and> \<not> isspace (hd s) \<and> \<not> isspace (last s))"

section \<open>Exceptions and JSON values\<close>

text \<open>
  The exceptions that the modelled code can meet. \<open>Raised\<close> is an exception of an external
  collaborator (the store, the embedding model, the completion service) with its message.
  A TypeError, an AttributeError, a RecursionError and a ValueError carry the
  interpreter's message, whose wording is CPython's and differs slightly between its
  versions.
\<close>

datatype exn =
    KeyError string
  | TypeError string
  | AttributeError string
  | IndexError
  | RecursionError string
  | ValueError string
  | Raised string

text \<open>\<open>str(e)\<close>.\<close>

fun str_exn :: "exn \<Rightarrow> string" where
  "str_exn (KeyError k) = [CHR 0x27] @ k @ [CHR 0x27]"
| "str_exn (TypeError m) = m"
| "str_exn (AttributeError m) = m"
| "str_exn IndexError = ''list index out of range''"
| "str_exn (RecursionError m) = m"
| "str_exn (ValueError m) = m"
| "str_exn (Raised m) = m"

text \<open>
  What \<open>json.loads\<close> returns and \<open>JsonResponse\<close> takes: \<open>None\<close>, a bool, a number, a
  \<open>str\<close>, a list or a dict. A dict is the list of its items in insertion order.
\<close>

datatype json =
    JNull
  | JBool bool
  | JInt int
  | JFloat real
  | JStr string
  | JArr "json list"
  | JObj "(string \<times> json) list"

text \<open>\<open>type(v).__name__\<close>.\<close>

fun type_name :: "json \<Rightarrow> string" where
  "type_name JNull = ''NoneType''"
| "type_name (JBool b) = ''bool''"
| "type_name (JInt n) = ''int''"
| "type_name (JFloat x) = ''float''"
| "type_name (JStr s) = ''str''"
| "type_name (JArr xs) = ''list''"
| "type_name (JObj items) = ''dict''"

text \<open>
  \<open>key in d\<close>, for the value \<open>d\<close> that \<open>json.loads\<close> returned: a key of a dict, an
  element of a list, a piece of a string; the other values are not containers.
\<close>

fun py_in :: "string \<Rightarrow> json \<Rightarrow> exn + bool" where
  "py_in key (JObj items) = Inr (map_of items key \<noteq> None)"
| "py_in key (JArr xs) = Inr (JStr key \<in> set xs)"
| "py_in key (JStr s) = Inr (sublist key s)"
| "py_in key v =
     Inl (TypeError (''argument of type '' @ [CHR 0x27] @ type_name v @ [CHR 0x27]
                     @ '' is not iterable''))"

text \<open>\<open>d[key] = v\<close> with a string as key.\<close>

fun py_setitem :: "json \<Rightarrow> string \<Rightarrow> json \<Rightarrow> exn + json" where
  "py_setitem (JObj items) key v = Inr (JObj (AList.update key v items))"
| "py_setitem (JArr xs) key v =
     Inl (TypeError ''list indices must be integers or slices, not str'')"
| "py_setitem d key v =
     Inl (TypeError ([CHR 0x27] @ type_name d @ [CHR 0x27]
                     @ '' object does not support item assignment''))"

text \<open>\<open>d[key]\<close> with a string as key.\<close>

fun py_getitem :: "json \<Rightarrow> string \<Rightarrow> exn + json" where
  "py_getitem (JObj items) key =
     (case map_of items key of None \<Rightarrow> Inl (KeyError key) | Some v \<Rightarrow> Inr v)"
| "py_getitem (JArr xs) key =
     Inl (TypeError ''list indices must be integers or slices, not str'')"
| "py_getitem (JStr s) key = Inl (TypeError ''string indices must be integers'')"
| "py_getitem d key =
     Inl (TypeError ([CHR 0x27] @ type_name d @ [CHR 0x27] @ '' object is not subscriptable''))"

text \<open>\<open>d.get(key, default)\<close>.\<close>

fun py_get :: "json \<Rightarrow> string \<Rightarrow> json \<Rightarrow> exn + json" where
  "py_get (JObj items) key dflt =
     (case map_of items key of None \<Rightarrow> Inr dflt | Some v \<Rightarrow> Inr v)"
| "py_get d key dflt =
     Inl (AttributeError ([CHR 0x27] @ type_name d @ [CHR 0x27]
                          @ '' object has no attribute '' @ [CHR 0x27] @ ''get'' @ [CHR 0x27]))"

text \<open>\<open>xs[i]\<close> on a list: a negative index counts from the end.\<close>

definition py_index :: "'a list \<Rightarrow> int \<Rightarrow> exn + 'a" where
  "py_index xs i =
     (if 0 \<le> i \<and> i < int (length xs) then Inr (xs ! nat i)
      else if i < 0 \<and> - int (length xs) \<le> i then Inr (xs ! nat (int (length xs) + i))
      else Inl IndexError)"

section \<open>The store (models.py) and the process-wide state\<close>

record document =
  doc_id :: nat
  doc_name :: string
  file_path :: string
  upload_date :: nat

record clause =
  clause_id :: nat
  clause_document :: nat
  clause_text :: string

record query =
  query_id :: nat
  query_text :: string
  parsed_data :: json

text \<open>
  A Decision row holds the values that \<open>Decision.objects.create\<close> was given, before the
  store coerces them to its column types.
\<close>

record decision =
  decision_query :: nat
  decision_status :: json
  amount :: json
  justification :: json
  referenced_clauses :: json

text \<open>
  The four tables, each in primary-key order, the two globals of views.py
  (\<open>faiss_index\<close>, \<open>None\<close> or the vectors held by the index, and \<open>clause_texts\<close>), and the
  cache. The expiry of cache entries (\<open>timeout=600\<close>) is not modelled.
\<close>

record 'v state =
  document_rows :: "document list"
  clause_rows :: "clause list"
  query_rows :: "query list"
  decision_rows :: "decision list"
  faiss_index :: "'v list option"
  clause_texts :: "string list"
  cache :: "string \<rightharpoonup> int"

text \<open>A primary key that no row of the table has.\<close>

definition fresh_id :: "nat list \<Rightarrow> nat" where
  "fresh_id ids = Suc (fold max ids 0)"

section \<open>The external collaborators\<close>

text \<open>
  The two prompts are f-strings over the query text and, for the second, the resolved
  clause list; a prompt is identified by its template and these values.
\<close>

datatype prompt = ParsePrompt string | DecisionPrompt string "string list"

text \<open>The calls on the store that the query path makes inside its \<open>try\<close>, and the first one.\<close>

datatype store_op =
    QueryCreate string
  | QuerySave nat json
  | ClauseAll
  | ClauseFilter string
  | DecisionCreate decision

text \<open>
  Everything the code calls and does not define: the completion service
  (\<open>model.generate_content(prompt).text\<close>), \<open>json.loads\<close> (the parsed value, \<open>None\<close> for a
  JSONDecodeError, which the code catches, or another exception that the parser raises,
  such as the ValueError for an integer of more than 4300 digits), the exception, if any, that serialising a value for a response raises (a RecursionError
  for a value nested too deeply), the embedding model, the distance that the index ranks
  by, the exception, if any, that a store call raises, and the date format of the
  document list.
\<close>

record ('v, 'd) env =
  generate_content :: "prompt \<Rightarrow> exn + string"
  json_loads :: "string \<Rightarrow> exn + json option"
  json_dumps :: "json \<Rightarrow> exn option"
  encode :: "string \<Rightarrow> exn + 'v"
  distance :: "'v \<Rightarrow> 'v \<Rightarrow> 'd"
  store_fault :: "store_op \<Rightarrow> exn option"
  date_format :: "nat \<Rightarrow> string"

section \<open>Ingestion (utils.py, extract_and_store_clauses; views.py, upload_document)\<close>

text \<open>
  The uploaded file: its name and what the PDF library makes of its bytes, the page texts
  or an exception.
\<close>

record uploaded_file =
  file_name :: string
  page_texts :: "exn + string list"

definition progress_key :: "string \<Rightarrow> string" where
  "progress_key task_id = ''progress_'' @ task_id"

text \<open>
  Python's \<open>float\<close> is the IEEE 754 binary64 format. \<open>float64 x\<close> is the binary64 number
  nearest to the rational \<open>x\<close>, ties going to the even significand, for \<open>x\<close> that is zero or
  positive and in the normal range, which is all that the percentage needs:
  \<open>bit_length\<close> is \<open>int.bit_length\<close>, \<open>exponent x\<close> the integer \<open>e\<close> with
  \<open>2 ^ e \<le> x < 2 ^ (e + 1)\<close>, and the significand has 53 bits.
\<close>

function bit_length :: "int \<Rightarrow> nat" where
  "bit_length a = (if a \<le> 0 then 0 else Suc (bit_length (a div 2)))"
  by pat_completeness auto
termination
  by (relation "measure nat") auto

declare bit_length.simps [simp del]

definition pow2 :: "int \<Rightarrow> rat" where
  "pow2 e = (if 0 \<le> e then 2 ^ nat e else 1 / 2 ^ nat (- e))"

definition exponent :: "rat \<Rightarrow> int" where
  "exponent x =
     (case quotient_of x of
        (a, b) \<Rightarrow>
          (let d = int (bit_length a) - int (bit_length b)
           in if pow2 d \<le> x then d else d - 1))"

definition round_half_even :: "rat \<Rightarrow> int" where
  "round_half_even m =
     (let r = \<lfloor>m\<rfloor>; f = m - of_int r
      in if f < 1 / 2 then r else if 1 / 2 < f then r + 1 else if even r then r else r + 1)"

definition float64 :: "rat \<Rightarrow> rat" where
  "float64 x =
     (if x \<le> 0 then 0
      else (let q = pow2 (exponent x - 52) in of_int (round_half_even (x / q)) * q))"

text \<open>
  \<open>int((i + 1) / len(clauses) * 100)\<close>, with \<open>completed = i + 1\<close> and \<open>n = len(clauses)\<close>: the
  quotient of two \<open>int\<close>s is the binary64 number nearest to the exact quotient, the product
  with 100 is rounded again, and \<open>int\<close> cuts the fraction off. The loop computes it for
  \<open>n \<ge> 1\<close> only, so the division never raises.
\<close>

definition progress :: "nat \<Rightarrow> nat \<Rightarrow> int" where
  "progress completed n = \<lfloor>float64 (float64 (of_nat completed / of_nat n) * 100)\<rfloor>"

text \<open>\<open>if task_id:\<close> holds for a non-empty string, not for \<open>None\<close>.\<close>

fun truthy :: "string option \<Rightarrow> bool" where
  "truthy None = False"
| "truthy (Some s) = (s \<noteq> [])"

text \<open>
  Lines 35-39, the loop \<open>for i, clause in enumerate(clauses)\<close> from position \<open>i\<close> on;
  \<open>n\<close> is \<open>len(clauses)\<close>. The store calls of the ingestion path are taken to return.
\<close>

fun save_loop ::
  "nat \<Rightarrow> string option \<Rightarrow> nat \<Rightarrow> nat \<Rightarrow> string list \<Rightarrow> 'v state \<Rightarrow> 'v state" where
  "save_loop doc task_id n i [] st = st"
| "save_loop doc task_id n i (c # rest) st =
     (let st1 = st\<lparr>clause_rows := clause_rows st @
                  [\<lparr>clause_id = fresh_id (map clause_id (clause_rows st)),
                    clause_document = doc, clause_text = c\<rparr>]\<rparr>;
          st2 = (if truthy task_id
                 then st1\<lparr>cache := (cache st1)(progress_key (the task_id) \<mapsto> progress (i + 1) n)\<rparr>
                 else st1)
      in save_loop doc task_id n (i + 1) rest st2)"

text \<open>
  \<open>extract_and_store_clauses(file_obj, task_id)\<close> at time \<open>now\<close>: the state it leaves, and
  the returned pair or the exception of the PDF library.
\<close>

definition extract_and_store_clauses ::
  "nat \<Rightarrow> uploaded_file \<Rightarrow> string option \<Rightarrow> 'v state \<Rightarrow> 'v state \<times> (exn + document \<times> nat)" where
  "extract_and_store_clauses now file_obj task_id st =
     (let doc = \<lparr>doc_id = fresh_id (map doc_id (document_rows st)),
                 doc_name = file_name file_obj, file_path = file_name file_obj,
                 upload_date = now\<rparr>;
          st1 = st\<lparr>document_rows := document_rows st @ [doc]\<rparr>
      in case page_texts file_obj of
           Inl e \<Rightarrow> (st1, Inl e)
         | Inr text_buffer \<Rightarrow>
             (let cls = clauses_of_pages text_buffer
              in (save_loop (doc_id doc) task_id (length cls) 0 cls st1,
                  Inr (doc, length cls))))"

text \<open>An HTTP response: the status code and the JSON body.\<close>

record response =
  status :: nat
  body :: json

text \<open>
  \<open>Document.objects.order_by('-upload_date')[:5]\<close> as the list of dicts that both views
  build from it.
\<close>

definition latest_docs :: "('v, 'd) env \<Rightarrow> 'v state \<Rightarrow> json" where
  "latest_docs env st =
     JArr (map (\<lambda>d. JObj [(''id'', JInt (int (doc_id d))), (''name'', JStr (doc_name d)),
                          (''upload_date'', JStr (date_format env (upload_date d)))])
               (take 5 (rev (sort_key upload_date (document_rows st)))))"

text \<open>
  The message of the duplicate check. The warning sign of the source (U+26A0 U+FE0F) is
  written as its UTF-8 bytes.
\<close>

definition duplicate_message :: "string \<Rightarrow> string" where
  "duplicate_message name =
     [CHR 0xE2, CHR 0x9A, CHR 0xA0, CHR 0xEF, CHR 0xB8, CHR 0x8F] @ '' File '' @ [CHR 0x27]
       @ name @ [CHR 0x27] @ '' already uploaded. Please use it from the list.''"

text \<open>
  \<open>upload_document\<close> for a POST request that carries the file, with \<open>uuid\<close> the value of
  \<open>str(uuid.uuid4())\<close>. The third component is the background work that the view starts
  and does not wait for: the file and the task identifier given to \<open>process_file\<close>.
\<close>

definition upload_document ::
  "('v, 'd) env \<Rightarrow> string \<Rightarrow> uploaded_file \<Rightarrow> 'v state
     \<Rightarrow> 'v state \<times> response \<times> (uploaded_file \<times> string) option" where
  "upload_document env uuid file_obj st =
     (if file_name file_obj \<in> set (map doc_name (document_rows st))
      then (st, \<lparr>status = 400,
                 body = JObj [(''error'', JStr (duplicate_message (file_name file_obj)))]\<rparr>, None)
      else (let task_id = uuid;
                st1 = st\<lparr>cache := (cache st)(progress_key task_id \<mapsto> 0)\<rparr>
            in (st1, \<lparr>status = 200,
                      body = JObj [(''task_id'', JStr task_id),
                                   (''latest_docs'', latest_docs env st1)]\<rparr>,
                Some (file_obj, task_id))))"

text \<open>\<open>get_progress\<close>: \<open>cache.get(key, 0)\<close>.\<close>

definition get_progress :: "'v state \<Rightarrow> string \<Rightarrow> response" where
  "get_progress st task_id =
     \<lparr>status = 200,
      body = JObj [(''progress'',
                    JInt (case cache st (progress_key task_id) of None \<Rightarrow> 0 | Some p \<Rightarrow> p))]\<rparr>"

section \<open>The vector index (views.py, lines 20-59)\<close>

text \<open>
  \<open>embedding_model.encode(texts)\<close>: one vector for each text, in order; it raises when the
  embedding of a text does.
\<close>

fun encode_all :: "('v, 'd) env \<Rightarrow> string list \<Rightarrow> exn + 'v list" where
  "encode_all env [] = Inr []"
| "encode_all env (t # ts) =
     (case encode env t of
        Inl e \<Rightarrow> Inl e
      | Inr v \<Rightarrow> (case encode_all env ts of Inl e \<Rightarrow> Inl e | Inr vs \<Rightarrow> Inr (v # vs)))"

text \<open>
  \<open>build_faiss_index\<close>: the state it leaves and the exception, if any. The snapshot
  \<open>clause_texts\<close> is assigned before the texts are embedded, so it stays replaced when
  the embedding raises.
\<close>

definition build_faiss_index :: "('v, 'd) env \<Rightarrow> 'v state \<Rightarrow> 'v state \<times> exn option" where
  "build_faiss_index env st =
     (case store_fault env ClauseAll of
        Some e \<Rightarrow> (st, Some e)
      | None \<Rightarrow>
          (let st1 = st\<lparr>clause_texts := map clause_text (clause_rows st)\<rparr>
           in if clause_texts st1 = [] then (st1\<lparr>faiss_index := None\<rparr>, None)
              else (case encode_all env (clause_texts st1) of
                      Inl e \<Rightarrow> (st1, Some e)
                    | Inr embeddings \<Rightarrow> (st1\<lparr>faiss_index := Some embeddings\<rparr>, None))))"

text \<open>
  Modelled from the spec: \<open>faiss_index.search(query_vec, top_k)\<close>, the nearest-neighbour
  capability, whose code is the external library's and not the repository's. It gives the
  labels for the one query vector. Following section 4.2 of the spec, they are the
  positions of the stored vectors nearest to the query, nearest first and the lower
  position first among equally distant ones. The library returns exactly \<open>top_k\<close> labels
  and puts -1 in the places for which it has no vector, which is the case whenever the
  index holds fewer than \<open>top_k\<close> vectors.
\<close>

definition index_search :: "('v \<Rightarrow> 'v \<Rightarrow> 'd::linorder) \<Rightarrow> 'v list \<Rightarrow> 'v \<Rightarrow> nat \<Rightarrow> int list" where
  "index_search metric vs q top_k =
     map int (take top_k (sort_key (\<lambda>i. metric q (vs ! i)) [0..<length vs]))
       @ replicate (top_k - length vs) (- 1)"

text \<open>Lines 55-59: the loop over the labels, with \<open>results\<close> as built so far.\<close>

fun collect_results :: "string list \<Rightarrow> int list \<Rightarrow> string list \<Rightarrow> exn + string list" where
  "collect_results texts [] results = Inr results"
| "collect_results texts (idx # rest) results =
     (if idx < int (length texts)
      then (case py_index texts idx of
              Inl e \<Rightarrow> Inl e
            | Inr t \<Rightarrow> collect_results texts rest (results @ [t]))
      else collect_results texts rest results)"

text \<open>\<open>semantic_search(query_text, top_k)\<close>: the state it leaves, and the result or exception.\<close>

definition semantic_search ::
  "('v, 'd::linorder) env \<Rightarrow> string \<Rightarrow> nat \<Rightarrow> 'v state \<Rightarrow> 'v state \<times> (exn + string list)" where
  "semantic_search env qtext top_k st =
     (case (if faiss_index st = None then build_faiss_index env st else (st, None)) of
        (st1, Some e) \<Rightarrow> (st1, Inl e)
      | (st1, None) \<Rightarrow>
          (case faiss_index st1 of
             None \<Rightarrow> (st1, Inr [])
           | Some vectors \<Rightarrow>
               if length (clause_texts st1) = 0 then (st1, Inr [])
               else (case encode env qtext of
                       Inl e \<Rightarrow> (st1, Inl e)
                     | Inr query_vec \<Rightarrow>
                         (st1, collect_results (clause_texts st1)
                                 (index_search (distance env) vectors query_vec top_k) []))))"

section \<open>Query processing (views.py, process_query)\<close>

text \<open>Lines 171-172 and 216-217: the code fence is removed when the text starts with one.\<close>

definition strip_fences :: "string \<Rightarrow> string" where
  "strip_fences res =
     (if prefix ''```'' res then strip (replace ''```'' [] (replace ''```json'' [] res))
      else res)"

text \<open>Lines 165-177: the parsed attributes, \<open>{}\<close> when the answer is not JSON.\<close>

definition parse_query :: "('v, 'd) env \<Rightarrow> string \<Rightarrow> exn + json" where
  "parse_query env qtext =
     (case generate_content env (ParsePrompt qtext) of
        Inl e \<Rightarrow> Inl e
      | Inr answer \<Rightarrow>
          (case json_loads env (strip_fences (strip answer)) of
             Inl e \<Rightarrow> Inl e
           | Inr None \<Rightarrow> Inr (JObj [])
           | Inr (Some parsed) \<Rightarrow> Inr parsed))"

text \<open>Lines 179-180: \<open>q.parsed_data = parsed_data; q.save()\<close> for the row with key \<open>q\<close>.\<close>

definition save_parsed :: "('v, 'd) env \<Rightarrow> nat \<Rightarrow> json \<Rightarrow> 'v state \<Rightarrow> exn + 'v state" where
  "save_parsed env q parsed st =
     (case store_fault env (QuerySave q parsed) of
        Some e \<Rightarrow> Inl e
      | None \<Rightarrow>
          Inr (st\<lparr>query_rows :=
                 map (\<lambda>r. if query_id r = q then r\<lparr>parsed_data := parsed\<rparr> else r)
                     (query_rows st)\<rparr>))"

text \<open>
  Lines 185-189: the loop over the snippets, with \<open>matched_clauses_texts\<close> as built so far.
  \<open>Clause.objects.filter(clause_text__icontains=snippet).first()\<close> is the first row, in
  primary-key order, whose text contains the snippet.
\<close>

fun resolve_loop ::
  "('v, 'd) env \<Rightarrow> clause list \<Rightarrow> string list \<Rightarrow> string list \<Rightarrow> exn + string list" where
  "resolve_loop env rows [] matched = Inr matched"
| "resolve_loop env rows (snippet # rest) matched =
     (case store_fault env (ClauseFilter snippet) of
        Some e \<Rightarrow> Inl e
      | None \<Rightarrow>
          (case find (\<lambda>c. icontains (clause_text c) snippet) rows of
             Some clause_obj \<Rightarrow> resolve_loop env rows rest (matched @ [clause_text clause_obj])
           | None \<Rightarrow> resolve_loop env rows rest matched))"

text \<open>Lines 185-192: the loop, then the fallback to the snippets when nothing matched.\<close>

definition resolve :: "('v, 'd) env \<Rightarrow> clause list \<Rightarrow> string list \<Rightarrow> exn + string list" where
  "resolve env rows snippets =
     (case resolve_loop env rows snippets [] of
        Inl e \<Rightarrow> Inl e
      | Inr matched \<Rightarrow> Inr (if matched = [] then snippets else matched))"

text \<open>
  Lines 164-192, the steps up to the resolved clause list: the state they leave, and
  \<open>matched_clauses_texts\<close> or the exception.
\<close>

definition retrieve ::
  "('v, 'd::linorder) env \<Rightarrow> nat \<Rightarrow> string \<Rightarrow> 'v state \<Rightarrow> 'v state \<times> (exn + string list)" where
  "retrieve env q qtext st =
     (case parse_query env qtext of
        Inl e \<Rightarrow> (st, Inl e)
      | Inr parsed \<Rightarrow>
          (case save_parsed env q parsed st of
             Inl e \<Rightarrow> (st, Inl e)
           | Inr st1 \<Rightarrow>
               (case semantic_search env qtext 5 st1 of
                  (st2, Inl e) \<Rightarrow> (st2, Inl e)
                | (st2, Inr snippets) \<Rightarrow> (st2, resolve env (clause_rows st2) snippets))))"

text \<open>Lines 222-227: the dict used when the answer is not JSON.\<close>

definition invalid_output :: "string list \<Rightarrow> json" where
  "invalid_output matched =
     JObj [(''decision'', JStr ''Needs Review''), (''amount'', JNull),
           (''justification'', JStr ''Gemini returned invalid output.''),
           (''referenced_clauses'', JArr (map JStr matched))]"

text \<open>Lines 195-227: \<open>decision_data\<close> as parsed from the answer to the decision prompt.\<close>

definition decide :: "('v, 'd) env \<Rightarrow> string \<Rightarrow> string list \<Rightarrow> exn + json" where
  "decide env qtext matched =
     (case generate_content env (DecisionPrompt qtext matched) of
        Inl e \<Rightarrow> Inl e
      | Inr answer \<Rightarrow>
          (case json_loads env (strip_fences (strip answer)) of
             Inl e \<Rightarrow> Inl e
           | Inr None \<Rightarrow> Inr (invalid_output matched)
           | Inr (Some parsed) \<Rightarrow> Inr parsed))"

text \<open>Lines 230-234: the four assignments made when \<open>"decision" not in decision_data\<close>.\<close>

definition ensure_keys :: "json \<Rightarrow> string list \<Rightarrow> exn + json" where
  "ensure_keys decision_data matched =
     (case py_in ''decision'' decision_data of
        Inl e \<Rightarrow> Inl e
      | Inr True \<Rightarrow> Inr decision_data
      | Inr False \<Rightarrow>
          (case py_setitem decision_data ''decision'' (JStr ''Needs Review'') of
             Inl e \<Rightarrow> Inl e
           | Inr d1 \<Rightarrow>
               (case py_setitem d1 ''amount'' JNull of
                  Inl e \<Rightarrow> Inl e
                | Inr d2 \<Rightarrow>
                    (case py_setitem d2 ''justification'' (JStr ''Insufficient data to decide.'') of
                       Inl e \<Rightarrow> Inl e
                     | Inr d3 \<Rightarrow>
                         py_setitem d3 ''referenced_clauses'' (JArr (map JStr matched))))))"

text \<open>Lines 238-242: the arguments of \<open>Decision.objects.create\<close>, evaluated in order.\<close>

definition decision_of :: "nat \<Rightarrow> json \<Rightarrow> string list \<Rightarrow> exn + decision" where
  "decision_of q decision_data matched =
     (case py_getitem decision_data ''decision'' of
        Inl e \<Rightarrow> Inl e
      | Inr s \<Rightarrow>
          (case py_get decision_data ''amount'' JNull of
             Inl e \<Rightarrow> Inl e
           | Inr a \<Rightarrow>
               (case py_getitem decision_data ''justification'' of
                  Inl e \<Rightarrow> Inl e
                | Inr j \<Rightarrow>
                    (case py_get decision_data ''referenced_clauses'' (JArr (map JStr matched)) of
                       Inl e \<Rightarrow> Inl e
                     | Inr rc \<Rightarrow>
                         Inr \<lparr>decision_query = q, decision_status = s, amount = a,
                              justification = j, referenced_clauses = rc\<rparr>))))"

text \<open>
  \<open>JsonResponse(data)\<close> with the default \<open>safe=True\<close>: only a dict is accepted, and it is
  serialised at once, which raises for a dict that the serialiser cannot walk.
\<close>

definition json_response :: "('v, 'd) env \<Rightarrow> json \<Rightarrow> exn + response" where
  "json_response env data =
     (case data of
        JObj items \<Rightarrow>
          (case json_dumps env data of
             Some e \<Rightarrow> Inl e
           | None \<Rightarrow> Inr \<lparr>status = 200, body = data\<rparr>)
      | _ \<Rightarrow> Inl (TypeError ''In order to allow non-dict objects to be serialized set the safe parameter to False.''))"

text \<open>
  Lines 194-245, from the decision prompt to the returned response: the state they leave,
  and the response or the exception.
\<close>

definition decide_and_persist ::
  "('v, 'd) env \<Rightarrow> nat \<Rightarrow> string \<Rightarrow> string list \<Rightarrow> 'v state \<Rightarrow> 'v state \<times> (exn + response)" where
  "decide_and_persist env q qtext matched st =
     (case decide env qtext matched of
        Inl e \<Rightarrow> (st, Inl e)
      | Inr parsed \<Rightarrow>
          (case ensure_keys parsed matched of
             Inl e \<Rightarrow> (st, Inl e)
           | Inr decision_data \<Rightarrow>
               (case decision_of q decision_data matched of
                  Inl e \<Rightarrow> (st, Inl e)
                | Inr row \<Rightarrow>
                    (case store_fault env (DecisionCreate row) of
                       Some e \<Rightarrow> (st, Inl e)
                     | None \<Rightarrow>
                         (st\<lparr>decision_rows := decision_rows st @ [row]\<rparr>,
                          json_response env decision_data)))))"

text \<open>Lines 163-245, the body of the \<open>try\<close>.\<close>

definition try_body ::
  "('v, 'd::linorder) env \<Rightarrow> nat \<Rightarrow> string \<Rightarrow> 'v state \<Rightarrow> 'v state \<times> (exn + response)" where
  "try_body env q qtext st =
     (case retrieve env q qtext st of
        (st2, Inl e) \<Rightarrow> (st2, Inl e)
      | (st2, Inr matched) \<Rightarrow> decide_and_persist env q qtext matched st2)"

text \<open>
  Lines 248-253, the response of the \<open>except\<close> branch; its dict of four short values is
  serialised without fail. The cross mark of the source (U+274C) is written as its UTF-8
  bytes.
\<close>

definition error_response :: "exn \<Rightarrow> response" where
  "error_response e =
     \<lparr>status = 500,
      body = JObj [(''decision'', JStr ''Needs Review''), (''amount'', JNull),
                   (''justification'',
                    JStr ([CHR 0xE2, CHR 0x9D, CHR 0x8C] @ '' Error: '' @ str_exn e)),
                   (''referenced_clauses'', JArr [])]\<rparr>"

text \<open>What the caller of a view gets: a response, or an exception that no handler caught.\<close>

datatype outcome = Unhandled exn | Response response

text \<open>
  \<open>process_query\<close> for a POST request whose body is a JSON object with the string
  \<open>qtext\<close> under \<open>query\<close>. Configuring the client (lines 160-161) calls no collaborator
  and is taken to return.
\<close>

definition process_query ::
  "('v, 'd::linorder) env \<Rightarrow> string \<Rightarrow> 'v state \<Rightarrow> 'v state \<times> outcome" where
  "process_query env qtext st =
     (case store_fault env (QueryCreate qtext) of
        Some e \<Rightarrow> (st, Unhandled e)
      | None \<Rightarrow>
          (let q = fresh_id (map query_id (query_rows st));
               st0 = st\<lparr>query_rows := query_rows st @
                          [\<lparr>query_id = q, query_text = qtext, parsed_data = JNull\<rparr>]\<rparr>
           in case try_body env q qtext st0 of
                (st1, Inr r) \<Rightarrow> (st1, Response r)
              | (st1, Inl e) \<Rightarrow> (st1, Response (error_response e))))"

text \<open>
  \<open>process_file\<close>, the background work of an accepted upload (views.py, lines 86-88), run
  at time \<open>now\<close>: the state it leaves and the exception that ended it, if any.
\<close>

definition process_file ::
  "('v, 'd) env \<Rightarrow> nat \<Rightarrow> uploaded_file \<Rightarrow> string \<Rightarrow> 'v state \<Rightarrow> 'v state \<times> exn option" where
  "process_file env now file_obj task_id st =
     (case extract_and_store_clauses now file_obj (Some task_id) st of
        (st1, Inl e) \<Rightarrow> (st1, Some e)
      | (st1, Inr done) \<Rightarrow> build_faiss_index env st1)"

text \<open>
  What the loop of lines 185-189 collects, written as a comprehension: for each snippet
  that some stored clause contains, the text of the first such clause; nothing for the
  other snippets.
\<close>

definition canonical_texts :: "clause list \<Rightarrow> string list \<Rightarrow> string list" where
  "canonical_texts rows snippets =
     List.map_filter
       (\<lambda>s. map_option clause_text (find (\<lambda>c. icontains (clause_text c) s) rows)) snippets"

section \<open>An environment and a state for the examples\<close>

text \<open>
  A completion service that gives the same \<open>answer\<close> to every prompt, a \<open>json.loads\<close> that
  knows the empty list and the empty dict, a serialiser and a store that raise nothing,
  and embeddings on a line with the query at 0.
\<close>

definition example_env :: "exn + string \<Rightarrow> (nat, nat) env" where
  "example_env answer =
     \<lparr>generate_content = (\<lambda>p. answer),
      json_loads = (\<lambda>s. if s = ''[]'' then Inr (Some (JArr []))
                         else if s = ''{}'' then Inr (Some (JObj [])) else Inr None),
      json_dumps = (\<lambda>_. None),
      encode = (\<lambda>t. if t = ''near clause'' then Inr 1
                     else if t = ''far clause'' then Inr 10 else Inr 0),
      distance = (\<lambda>a b. if a \<le> b then b - a else a - b),
      store_fault = (\<lambda>_. None),
      date_format = (\<lambda>_. [])\<rparr>"

text \<open>One stored document, the given clause rows, no index yet.\<close>

definition example_state :: "clause list \<Rightarrow> nat state" where
  "example_state rows =
     \<lparr>document_rows = [\<lparr>doc_id = 1, doc_name = ''policy.pdf'', file_path = ''policy.pdf'', upload_date = 0\<rparr>],
      clause_rows = rows, query_rows = [], decision_rows = [],
      faiss_index = None, clause_texts = [], cache = Map.empty\<rparr>"






section \<open>Facts about strings\<close>

lemma last_dropWhile: "dropWhile P xs \<noteq> [] \<Longrightarrow> last (dropWhile P xs) = last xs"
  by (induction xs) (auto split: if_splits)

lemma strip_trimmed: "strip p \<noteq> [] \<Longrightarrow> trimmed (strip p)"
proof -
  assume ne: "strip p \<noteq> []"
  let ?a = "dropWhile isspace p"
  let ?b = "dropWhile isspace (rev ?a)"
  from ne have b: "?b \<noteq> []" by (simp add: strip_def)
  then have hb: "\<not> isspace (hd ?b)" by (rule hd_dropWhile)
  have a: "?a \<noteq> []"
  proof
    assume e: "?a = []"
    from b show False unfolding e by simp
  qed
  then have ha: "\<not> isspace (hd ?a)" by (rule hd_dropWhile)
  have last_eq: "last (strip p) = hd ?b" using b by (simp add: strip_def last_rev)
  have "hd (strip p) = last ?b" using b by (simp add: strip_def hd_rev)
  also have "last ?b = last (rev ?a)" using b by (rule last_dropWhile)
  also have "\<dots> = hd ?a" using a by (simp add: last_rev)
  finally have "hd (strip p) = hd ?a" .
  with ha hb last_eq ne show ?thesis by (simp add: trimmed_def)
qed

lemma strip_of_trimmed: "trimmed s \<Longrightarrow> strip s = s"
proof -
  assume t: "trimmed s"
  then obtain c cs where s: "s = c # cs" and c: "\<not> isspace c"
    by (cases s) (auto simp: trimmed_def)
  then have d: "dropWhile isspace s = s" by simp
  from t have "rev s \<noteq> []" and "\<not> isspace (hd (rev s))"
    by (auto simp: trimmed_def hd_rev)
  then have "dropWhile isspace (rev s) = rev s" by (cases "rev s") auto
  with d show ?thesis by (simp add: strip_def)
qed

lemma strip_space_trimmed: "trimmed s \<Longrightarrow> strip ('' '' @ s) = s"
proof -
  assume t: "trimmed s"
  have sp: "isspace CHR '' ''" by (simp add: isspace_def)
  have "dropWhile isspace ('' '' @ s) = dropWhile isspace s" using sp by simp
  then have "strip ('' '' @ s) = strip s" by (simp add: strip_def)
  with t show ?thesis by (simp add: strip_of_trimmed)
qed

lemma join_space_trimmed:
  "g \<noteq> [] \<Longrightarrow> \<forall>l \<in> set g. trimmed l \<Longrightarrow> trimmed (join '' '' g)"
proof (induction g rule: induct_list012)
  case 1
  then show ?case by simp
next
  case (2 x)
  then show ?case by simp
next
  case (3 x y ys)
  then have r: "trimmed (join '' '' (y # ys))" and x: "trimmed x" by auto
  then show ?case by (auto simp: trimmed_def)
qed

lemma buffer_of_group:
  "g \<noteq> [] \<Longrightarrow> concat (map (\<lambda>l. '' '' @ l) g) = '' '' @ join '' '' g"
  by (induction g rule: induct_list012) auto

lemma strip_buffer_of_group:
  assumes "g \<noteq> []" and "\<forall>l \<in> set g. trimmed l"
  shows "strip (concat (map (\<lambda>l. '' '' @ l) g)) = join '' '' g"
  using assms buffer_of_group[of g] join_space_trimmed[of g] strip_space_trimmed
  by simp

section \<open>The segmenter\<close>

lemma concat_grouping: "concat (grouping ls g) = g @ ls"
  by (induction ls arbitrary: g) auto

lemma grouping_nonempty: "[] \<notin> set (grouping ls g)"
  by (induction ls arbitrary: g) auto

lemma merge_loop_grouping:
  assumes "\<forall>l \<in> set ls. trimmed l" and "\<forall>l \<in> set g. trimmed l"
  shows "(case merge_loop ls (concat (map (\<lambda>l. '' '' @ l) g)) cl of
            (clauses, buffer) \<Rightarrow> if buffer \<noteq> [] then clauses @ [strip buffer] else clauses)
         = cl @ map (join '' '') (grouping ls g)"
  using assms
proof (induction ls arbitrary: g cl)
  case Nil
  show ?case
  proof (cases "g = []")
    case True
    then show ?thesis by simp
  next
    case False
    then have "concat (map (\<lambda>l. '' '' @ l) g) \<noteq> []" by (cases g) auto
    moreover have "strip (concat (map (\<lambda>l. '' '' @ l) g)) = join '' '' g"
      using False Nil by (intro strip_buffer_of_group) auto
    ultimately show ?thesis using False by simp
  qed
next
  case (Cons line rest)
  show ?case
  proof (cases "length line < 40")
    case True
    have "concat (map (\<lambda>l. '' '' @ l) g) @ '' '' @ line = concat (map (\<lambda>l. '' '' @ l) (g @ [line]))"
      by simp
    moreover have "\<forall>l \<in> set (g @ [line]). trimmed l" using Cons.prems by simp
    moreover have "\<forall>l \<in> set rest. trimmed l" using Cons.prems by simp
    ultimately show ?thesis using True Cons.IH[of "g @ [line]" cl] by simp
  next
    case long: False
    have rest: "\<forall>l \<in> set rest. trimmed l" using Cons.prems by simp
    have e: "[] = concat (map (\<lambda>l. '' '' @ l) ([]::string list))" by simp
    show ?thesis
    proof (cases "g = []")
      case True
      with long rest Cons.IH[of "[]" "cl @ [line]"] show ?thesis by simp
    next
      case False
      then have ne: "concat (map (\<lambda>l. '' '' @ l) g) \<noteq> []" by (cases g) auto
      have s: "strip (concat (map (\<lambda>l. '' '' @ l) g)) = join '' '' g"
        using False Cons.prems by (intro strip_buffer_of_group) auto
      from long ne s False rest Cons.IH[of "[]" "(cl @ [join '' '' g]) @ [line]"]
      show ?thesis by simp
    qed
  qed
qed

lemma raw_clauses_trimmed: "\<forall>l \<in> set (raw_clauses ls). trimmed l"
  by (auto simp: raw_clauses_def strip_trimmed)

lemma trimmed_join_nonempty: "g \<noteq> [] \<Longrightarrow> \<forall>l \<in> set g. trimmed l \<Longrightarrow> join '' '' g \<noteq> []"
  using join_space_trimmed[of g] by (auto simp: trimmed_def)

lemma clauses_of_lines_grouping:
  "clauses_of_lines ls = map (join '' '') (grouping (raw_clauses ls) [])"
  using merge_loop_grouping[of "raw_clauses ls" "[]" "[]"] raw_clauses_trimmed[of ls]
  by (simp add: clauses_of_lines_def segment_def)

text \<open>
  Claim C7. For every sequence of input lines, the emitted clauses are the single-space
  joins of consecutive non-empty groups \<open>gs\<close> of the trimmed, non-empty lines: the groups
  concatenate to exactly those lines in order, so the clauses with the re-inserted
  separators left out (\<open>map concat gs\<close>) concatenate to the concatenation of those lines,
  and no emitted clause is the empty string.
\<close>

theorem segmenter_keeps_lines:
  "\<exists>gs. concat gs = raw_clauses ls \<and> [] \<notin> set gs
      \<and> clauses_of_lines ls = map (join '' '') gs
      \<and> concat (map concat gs) = concat (raw_clauses ls)
      \<and> [] \<notin> set (clauses_of_lines ls)"
proof -
  let ?gs = "grouping (raw_clauses ls) []"
  have c: "concat ?gs = raw_clauses ls" by (simp add: concat_grouping)
  have n: "[] \<notin> set ?gs" by (rule grouping_nonempty)
  have e: "clauses_of_lines ls = map (join '' '') ?gs" by (rule clauses_of_lines_grouping)
  have cc: "concat (map concat ?gs) = concat (raw_clauses ls)"
  proof -
    have "concat (map concat gs) = concat (concat gs)" for gs :: "string list list"
      by (induction gs) auto
    with c show ?thesis by simp
  qed
  have "\<forall>g \<in> set ?gs. join '' '' g \<noteq> []"
  proof
    fix g assume g: "g \<in> set ?gs"
    with n have "g \<noteq> []" by auto
    moreover have "set g \<subseteq> set (concat ?gs)" using g by auto
    then have "\<forall>l \<in> set g. trimmed l" using c raw_clauses_trimmed[of ls] by auto
    ultimately show "join '' '' g \<noteq> []" by (rule trimmed_join_nonempty)
  qed
  then have "[] \<notin> set (clauses_of_lines ls)" unfolding e by auto
  with c n e cc show ?thesis by blast
qed

text \<open>The theorem at an input with blank lines, padding, short and long lines.\<close>

theorem segmenter_keeps_lines_witness:
  "\<exists>gs. concat gs = [''ab'', ''c d'', ''a long line a long line a long line a long line'', ''e'']
      \<and> [] \<notin> set gs
      \<and> clauses_of_lines [''  ab '', '' '', ''c d'', [], ''a long line a long line a long line a long line'', ''e '']
          = map (join '' '') gs
      \<and> concat (map concat gs)
          = ''abc da long line a long line a long line a long linee''"
proof -
  have r: "raw_clauses [''  ab '', '' '', ''c d'', [], ''a long line a long line a long line a long line'', ''e '']
           = [''ab'', ''c d'', ''a long line a long line a long line a long line'', ''e'']"
    by (simp add: raw_clauses_def strip_def isspace_def)
  show ?thesis
    using segmenter_keeps_lines
      [of "[''  ab '', '' '', ''c d'', [], ''a long line a long line a long line a long line'', ''e '']"]
    unfolding r by auto
qed

text \<open>
  Claim C2, as the code has it. The fourth line, \<open>Section 2 full clause text here ok\<close>, has
  34 characters, fewer than 40, so it is merged like the three before it: the Clause
  Segmenter returns the single clause \<open>Section 1 a b Section 2 full clause text here ok\<close>.
\<close>

theorem segment_example:
  "clauses_of_lines [''Section 1'', ''a'', ''b'', ''Section 2 full clause text here ok'']
     = [''Section 1 a b Section 2 full clause text here ok'']"
  by (simp add: clauses_of_lines_def segment_def raw_clauses_def strip_def isspace_def)

text \<open>The two clauses that claim C2 states are not what the segmenter returns.\<close>

theorem segment_example_counterexample:
  "clauses_of_lines [''Section 1'', ''a'', ''b'', ''Section 2 full clause text here ok'']
     \<noteq> [''Section 1 a b'', ''Section 2 full clause text here ok'']"
  by (simp add: clauses_of_lines_def segment_def raw_clauses_def strip_def isspace_def)

section \<open>Ingestion\<close>

lemma float64_one: "float64 1 = 1"
  by code_simp

lemma float64_hundred: "float64 100 = 100"
  by code_simp

lemma progress_full: "0 < n \<Longrightarrow> progress n n = 100"
  by (simp add: progress_def float64_one float64_hundred)

lemma save_loop_cache:
  "cs \<noteq> [] \<Longrightarrow> t \<noteq> [] \<Longrightarrow>
   cache (save_loop d (Some t) n i cs st) (progress_key t) = Some (progress (i + length cs) n)"
proof (induction cs arbitrary: i st)
  case Nil
  then show ?case by simp
next
  case (Cons c rest)
  show ?case
  proof (cases "rest = []")
    case True
    with Cons.prems show ?thesis by (simp add: Let_def)
  next
    case False
    with Cons.prems Cons.IH[of "i + 1"] show ?thesis by (simp add: Let_def)
  qed
qed

lemma save_loop_texts:
  "map clause_text (clause_rows (save_loop d task n i cs st)) = map clause_text (clause_rows st) @ cs"
  by (induction cs arbitrary: i st) (auto simp: Let_def)

text \<open>
  Claim C8. When the PDF library yields the page texts, the segmenter emits N \<ge> 1 clauses
  and the task identifier is a non-empty string, \<open>extract_and_store_clauses\<close> persists
  the N clauses in order and leaves the progress entry of the task at exactly 100: the
  value written after the N-th clause is the last one written under that key.
\<close>

theorem ingestion_reaches_100:
  assumes "page_texts f = Inr pages" and "clauses_of_pages pages \<noteq> []" and "task_id \<noteq> []"
  shows "cache (fst (extract_and_store_clauses now f (Some task_id) st)) (progress_key task_id)
           = Some 100
         \<and> map clause_text (clause_rows (fst (extract_and_store_clauses now f (Some task_id) st)))
           = map clause_text (clause_rows st) @ clauses_of_pages pages"
  using assms
  by (simp add: extract_and_store_clauses_def Let_def save_loop_cache save_loop_texts progress_full)

text \<open>The theorem at a two-page file that yields two clauses.\<close>

theorem ingestion_reaches_100_witness:
  "cache (fst (extract_and_store_clauses 7
                 \<lparr>file_name = ''new.pdf'',
                  page_texts = Inr [''Cover'', ''Claims must be filed within 30 days of treatment'']\<rparr>
                 (Some ''task-1'') (example_state [])))
     (progress_key ''task-1'') = Some 100"
proof -
  have c: "clauses_of_pages [''Cover'', ''Claims must be filed within 30 days of treatment'']
             = [''Cover'', ''Claims must be filed within 30 days of treatment'']"
    by (simp add: clauses_of_pages_def clauses_of_lines_def segment_def raw_clauses_def
          strip_def isspace_def)
  have "page_texts \<lparr>file_name = ''new.pdf'',
                    page_texts = Inr [''Cover'', ''Claims must be filed within 30 days of treatment'']\<rparr>
          = Inr [''Cover'', ''Claims must be filed within 30 days of treatment'']"
    by simp
  moreover have "clauses_of_pages [''Cover'', ''Claims must be filed within 30 days of treatment''] \<noteq> []"
    unfolding c by simp
  moreover have "''task-1'' \<noteq> []" by simp
  ultimately show ?thesis using ingestion_reaches_100 by blast
qed

text \<open>
  Claim C9. An upload whose file name is the name of a stored Document is answered with
  status 400 and an error message. The state is returned as it was: no Document row, no
  progress entry; the response carries no task identifier and no background work starts.
\<close>

theorem duplicate_upload_rejected:
  assumes "file_name f \<in> set (map doc_name (document_rows st))"
  shows "upload_document env uuid f st
           = (st, \<lparr>status = 400,
                   body = JObj [(''error'', JStr (duplicate_message (file_name f)))]\<rparr>, None)"
  using assms by (simp add: upload_document_def)

text \<open>The theorem at a second upload of \<open>policy.pdf\<close>.\<close>

theorem duplicate_upload_rejected_witness:
  "upload_document (example_env (Inr ''{}'')) ''0b0e7a52''
     \<lparr>file_name = ''policy.pdf'', page_texts = Inr [''text'']\<rparr> (example_state [])
   = (example_state [],
      \<lparr>status = 400, body = JObj [(''error'', JStr (duplicate_message ''policy.pdf''))]\<rparr>, None)"
proof -
  have "file_name \<lparr>file_name = ''policy.pdf'', page_texts = Inr [''text'']\<rparr>
          \<in> set (map doc_name (document_rows (example_state [])))"
    by (simp add: example_state_def)
  from duplicate_upload_rejected[OF this] show ?thesis by simp
qed

section \<open>The vector index\<close>

lemma build_faiss_index_tables:
  "build_faiss_index env st = (st', r) \<Longrightarrow>
   decision_rows st' = decision_rows st \<and> query_rows st' = query_rows st
   \<and> clause_rows st' = clause_rows st \<and> document_rows st' = document_rows st"
  by (auto simp: build_faiss_index_def Let_def split: option.splits sum.splits if_splits)

lemma semantic_search_tables:
  assumes "semantic_search env qtext k st = (st', r)"
  shows "decision_rows st' = decision_rows st \<and> query_rows st' = query_rows st
         \<and> clause_rows st' = clause_rows st \<and> document_rows st' = document_rows st"
proof -
  obtain st1 r1 where b: "(if faiss_index st = None then build_faiss_index env st else (st, None)) = (st1, r1)"
    by (cases "if faiss_index st = None then build_faiss_index env st else (st, None)")
  then have t: "decision_rows st1 = decision_rows st \<and> query_rows st1 = query_rows st
         \<and> clause_rows st1 = clause_rows st \<and> document_rows st1 = document_rows st"
    using build_faiss_index_tables[of env st st1 r1] by (auto split: if_splits)
  from assms b have "st' = st1"
    by (auto simp: semantic_search_def split: option.splits sum.splits if_splits)
  with t show ?thesis by simp
qed

text \<open>Labels that are positions of the snapshot select its texts, in the order given.\<close>

lemma collect_results_valid:
  "\<forall>i \<in> set is. i < length texts \<Longrightarrow>
   collect_results texts (map int is) acc = Inr (acc @ map ((!) texts) is)"
  by (induction "is" arbitrary: acc) (auto simp: py_index_def)

text \<open>A label -1 passes the test \<open>idx < len(clause_texts)\<close> and selects the last text.\<close>

lemma collect_results_padding:
  "texts \<noteq> [] \<Longrightarrow>
   collect_results texts (replicate n (- 1)) acc = Inr (acc @ replicate n (last texts))"
proof (induction n arbitrary: acc)
  case 0
  then show ?case by simp
next
  case (Suc n)
  from Suc.prems have "py_index texts (- 1) = Inr (last texts)"
    by (cases texts rule: rev_cases) (auto simp: py_index_def nth_append)
  with Suc show ?case by (simp add: replicate_app_Cons_same)
qed

text \<open>
  When the index holds at least \<open>top_k\<close> vectors, aligned with the snapshot, the search
  returns \<open>top_k\<close> texts of the snapshot in the order of non-decreasing distance.
\<close>

lemma search_sorted_when_enough:
  fixes env :: "('v, 'd::linorder) env"
  assumes "faiss_index st = Some vectors"
    and "length vectors = length (clause_texts st)"
    and "clause_texts st \<noteq> []"
    and "encode env qtext = Inr qv"
    and "k \<le> length vectors"
  shows "\<exists>is. semantic_search env qtext k st = (st, Inr (map ((!) (clause_texts st)) is))
            \<and> length is = k \<and> (\<forall>i \<in> set is. i < length (clause_texts st))
            \<and> sorted (map (\<lambda>i. distance env qv (vectors ! i)) is)"
proof -
  let ?f = "\<lambda>i. distance env qv (vectors ! i)"
  let ?is = "take k (sort_key ?f [0..<length vectors])"
  have v: "\<forall>i \<in> set ?is. i < length (clause_texts st)"
    using assms(2) by (auto dest: in_set_takeD)
  have l: "length ?is = k" using assms(5) by simp
  have "sorted (take k (map ?f (sort_key ?f [0..<length vectors])))"
    by (intro sorted_wrt_take sorted_sort_key)
  then have s: "sorted (map ?f ?is)" by (simp add: take_map)
  have "index_search (distance env) vectors qv k = map int ?is"
    using assms(5) by (simp add: index_search_def)
  then have "semantic_search env qtext k st = (st, Inr (map ((!) (clause_texts st)) ?is))"
    using assms collect_results_valid[OF v, of "[]"] by (simp add: semantic_search_def)
  with v l s show ?thesis by blast
qed

text \<open>
  Claim C3, as the code has it. \<open>semantic_search\<close> returns the empty list when the index
  is uninitialized and the store, asked for its clauses by the rebuild that the search
  itself starts, has none; and when the index is initialized and the snapshot is empty.
\<close>

theorem search_empty_index:
  assumes "(faiss_index st = None \<and> clause_rows st = [] \<and> store_fault env ClauseAll = None)
           \<or> (faiss_index st \<noteq> None \<and> clause_texts st = [])"
  shows "snd (semantic_search env qtext k st) = Inr []"
  using assms
  by (auto simp: semantic_search_def build_faiss_index_def Let_def split: option.splits)

text \<open>The theorem at an empty store without an index, and at an index with an empty snapshot.\<close>

theorem search_empty_index_witness:
  "snd (semantic_search (example_env (Inr ''[]'')) ''q'' 5 (example_state [])) = Inr []
   \<and> snd (semantic_search (example_env (Inr ''[]'')) ''q'' 5 ((example_state [])\<lparr>faiss_index := Some [3]\<rparr>)) = Inr []"
proof -
  have a: "(faiss_index (example_state []) = None \<and> clause_rows (example_state []) = []
            \<and> store_fault (example_env (Inr ''[]'')) ClauseAll = None)
          \<or> (faiss_index (example_state []) \<noteq> None \<and> clause_texts (example_state []) = [])"
    by (simp add: example_state_def example_env_def)
  let ?st = "(example_state [])\<lparr>faiss_index := Some [3]\<rparr>"
  have b: "(faiss_index ?st = None \<and> clause_rows ?st = [] \<and> store_fault (example_env (Inr ''[]'')) ClauseAll = None)
          \<or> (faiss_index ?st \<noteq> None \<and> clause_texts ?st = [])"
    by (simp add: example_state_def example_env_def)
  from search_empty_index[OF a] search_empty_index[OF b] show ?thesis by simp
qed

text \<open>
  Claim C3 as stated fails: with the index uninitialized and one clause in the store, the
  search first rebuilds the index (lines 46-47) and then returns that clause.
\<close>

theorem search_uninitialized_counterexample:
  "faiss_index (example_state [\<lparr>clause_id = 1, clause_document = 1, clause_text = ''near clause''\<rparr>]) = None
   \<and> snd (semantic_search (example_env (Inr ''[]'')) ''q'' 1
        (example_state [\<lparr>clause_id = 1, clause_document = 1, clause_text = ''near clause''\<rparr>]))
     = Inr [''near clause'']"
  by (simp add: semantic_search_def build_faiss_index_def example_state_def example_env_def
        index_search_def py_index_def Let_def)

text \<open>
  Claim C6 at an index rebuilt over N = 2 clauses and \<open>top_k = 5\<close>, the value that
  \<open>process_query\<close> passes. The three labels -1 each select the last snapshot text, so the
  result repeats \<open>near clause\<close> after \<open>far clause\<close>: the distances to the query run
  1, 10, 1, 1, 1 and are not non-decreasing.
\<close>

theorem search_pads_with_last_clause:
  "snd (semantic_search (example_env (Inr ''[]'')) ''q'' 5
        (example_state [\<lparr>clause_id = 1, clause_document = 1, clause_text = ''far clause''\<rparr>,
                        \<lparr>clause_id = 2, clause_document = 1, clause_text = ''near clause''\<rparr>]))
     = Inr [''near clause'', ''far clause'', ''near clause'', ''near clause'', ''near clause'']
   \<and> encode (example_env (Inr ''[]'')) ''q'' = Inr 0
   \<and> encode (example_env (Inr ''[]'')) ''near clause'' = Inr 1
   \<and> encode (example_env (Inr ''[]'')) ''far clause'' = Inr 10
   \<and> distance (example_env (Inr ''[]'')) 0 1 = 1
   \<and> distance (example_env (Inr ''[]'')) 0 10 = 10"
  by (simp add: semantic_search_def build_faiss_index_def example_state_def example_env_def
        index_search_def py_index_def Let_def upt_rec eval_nat_numeral)

section \<open>Resolving the snippets\<close>

lemmas eval_simps = sublist_code icontains_def to_lower_def List.map_filter_simps canonical_texts_def

lemma resolve_loop_canonical:
  "\<forall>s \<in> set snippets. store_fault env (ClauseFilter s) = None \<Longrightarrow>
   resolve_loop env rows snippets acc = Inr (acc @ canonical_texts rows snippets)"
  by (induction snippets arbitrary: acc)
     (auto simp: canonical_texts_def List.map_filter_simps split: option.splits)

lemma length_canonical_texts: "length (canonical_texts rows snippets) \<le> length snippets"
  unfolding canonical_texts_def List.map_filter_def
  by (simp add: le_trans[OF length_filter_le])

text \<open>
  Claim C1, as the code has it. When the store answers every lookup, each snippet that
  some stored clause contains contributes the text of the first such clause, in retrieval
  order, and a snippet that no clause contains contributes nothing; only when no snippet
  resolves is the raw snippet list used. The resolved list has at most one entry for each
  retrieved snippet.
\<close>

theorem resolve_drops_unresolved:
  assumes "\<forall>s \<in> set snippets. store_fault env (ClauseFilter s) = None"
  shows "resolve env rows snippets
           = Inr (if canonical_texts rows snippets = [] then snippets
                  else canonical_texts rows snippets)
         \<and> length (canonical_texts rows snippets) \<le> length snippets"
  using assms by (simp add: resolve_def resolve_loop_canonical length_canonical_texts)

text \<open>The theorem at a snapshot of two snippets of which the store still holds one.\<close>

theorem resolve_drops_unresolved_witness:
  "resolve (example_env (Inr ''[]''))
     [\<lparr>clause_id = 1, clause_document = 1, clause_text = ''Claims within 30 days''\<rparr>]
     [''claims WITHIN 30 days'', ''Removed clause'']
   = Inr [''Claims within 30 days'']"
proof -
  have "\<forall>s \<in> set [''claims WITHIN 30 days'', ''Removed clause''].
          store_fault (example_env (Inr ''[]'')) (ClauseFilter s) = None"
    by (simp add: example_env_def)
  from resolve_drops_unresolved[OF this, of "[\<lparr>clause_id = 1, clause_document = 1, clause_text = ''Claims within 30 days''\<rparr>]"]
  show ?thesis by (simp add: eval_simps)
qed

text \<open>
  Claim C1 as stated fails: of two retrieved snippets, one resolving and one not, the
  resolved list keeps one entry; the snippet that does not resolve is not kept.
\<close>

theorem resolve_counterexample:
  "resolve (example_env (Inr ''[]''))
     [\<lparr>clause_id = 1, clause_document = 1, clause_text = ''Claims within 30 days''\<rparr>]
     [''Claims within 30 days'', ''Removed clause'']
   = Inr [''Claims within 30 days'']
   \<and> resolve (example_env (Inr ''[]''))
     [\<lparr>clause_id = 1, clause_document = 1, clause_text = ''Claims within 30 days''\<rparr>]
     [''Claims within 30 days'', ''Removed clause'']
   \<noteq> Inr [''Claims within 30 days'', ''Removed clause'']"
  by (simp add: resolve_def example_env_def eval_simps)

section \<open>The query pipeline\<close>

lemma retrieve_tables:
  assumes "retrieve env q qtext st = (st', r)"
  shows "decision_rows st' = decision_rows st
         \<and> map query_id (query_rows st') = map query_id (query_rows st)
         \<and> map query_text (query_rows st') = map query_text (query_rows st)"
proof (cases "parse_query env qtext")
  case (Inl e)
  with assms show ?thesis by (simp add: retrieve_def)
next
  case (Inr parsed)
  show ?thesis
  proof (cases "save_parsed env q parsed st")
    case (Inl e)
    with Inr assms show ?thesis by (simp add: retrieve_def)
  next
    case st1: (Inr st1)
    then have s: "decision_rows st1 = decision_rows st
         \<and> map query_id (query_rows st1) = map query_id (query_rows st)
         \<and> map query_text (query_rows st1) = map query_text (query_rows st)"
      by (auto simp: save_parsed_def split: option.splits)
    obtain st2 r2 where ss: "semantic_search env qtext 5 st1 = (st2, r2)"
      by (cases "semantic_search env qtext 5 st1")
    from semantic_search_tables[OF ss] have
      "decision_rows st2 = decision_rows st1 \<and> query_rows st2 = query_rows st1" by simp
    moreover from assms Inr st1 ss have "st' = st2"
      by (auto simp: retrieve_def split: sum.splits)
    ultimately show ?thesis using s by simp
  qed
qed


lemma decision_of_query: "decision_of q d m = Inr row \<Longrightarrow> decision_query row = q"
  by (auto simp: decision_of_def split: sum.splits)


lemma decide_and_persist_Inr:
  "decide_and_persist env q qtext m st = (st', Inr r) \<Longrightarrow>
   status r = 200 \<and> (\<exists>row. decision_query row = q
                        \<and> st' = st\<lparr>decision_rows := decision_rows st @ [row]\<rparr>)"
  by (auto simp: decide_and_persist_def json_response_def
           split: sum.splits option.splits json.splits dest: decision_of_query)


lemma try_body_Inr:
  assumes "try_body env q qtext st = (st', Inr r)"
  shows "status r = 200
         \<and> (\<exists>row. decision_query row = q \<and> decision_rows st' = decision_rows st @ [row])
         \<and> map query_id (query_rows st') = map query_id (query_rows st)
         \<and> map query_text (query_rows st') = map query_text (query_rows st)"
proof -
  obtain st2 r2 where r: "retrieve env q qtext st = (st2, r2)" by (cases "retrieve env q qtext st")
  note t = retrieve_tables[OF r]
  from assms r obtain matched where m: "r2 = Inr matched"
    and d: "decide_and_persist env q qtext matched st2 = (st', Inr r)"
    by (cases r2) (auto simp: try_body_def)
  from decide_and_persist_Inr[OF d] t show ?thesis by auto
qed

lemma try_body_Inr_answer:
  assumes "try_body env q qtext st = (st', Inr r)"
  shows "\<exists>m answer. generate_content env (DecisionPrompt qtext m) = Inr answer"
proof -
  obtain st2 r2 where r: "retrieve env q qtext st = (st2, r2)" by (cases "retrieve env q qtext st")
  from assms r obtain matched where
    d: "decide_and_persist env q qtext matched st2 = (st', Inr r)"
    by (cases r2) (auto simp: try_body_def)
  then obtain parsed where "decide env qtext matched = Inr parsed"
    by (cases "decide env qtext matched") (auto simp: decide_and_persist_def)
  then obtain answer where "generate_content env (DecisionPrompt qtext matched) = Inr answer"
    by (cases "generate_content env (DecisionPrompt qtext matched)") (auto simp: decide_def)
  then show ?thesis by blast
qed

lemma try_body_parse_failure:
  "generate_content env (ParsePrompt qtext) = Inl e \<Longrightarrow> try_body env q qtext st = (st, Inl e)"
  by (simp add: try_body_def retrieve_def parse_query_def)


lemma strip_fences_example: "strip_fences (strip (''```json'' @ [CHR 0x0A] @ ''{}'' @ [CHR 0x0A] @ ''```'')) = ''{}''"
  by (simp add: strip_fences_def strip_def isspace_def)

text \<open>
  Claim C4, as the code has it. When the steps up to the resolved clause list return, the
  answer to the decision prompt parses as a JSON object without the key \<open>decision\<close>, and
  the store accepts the row, \<open>process_query\<close> persists one Decision for the query with
  status \<open>Needs Review\<close>, amount null, the justification \<open>Insufficient data to decide.\<close>
  and the resolved clause list as referenced clauses. It answers 200 with these values,
  or, when serialising them for the response raises, the response of the \<open>except\<close> branch.
\<close>

theorem missing_decision_key_needs_review:
  fixes env :: "('v, 'd::linorder) env"
  assumes created: "store_fault env (QueryCreate qtext) = None"
    and q: "q = fresh_id (map query_id (query_rows st))"
    and retrieved:
      "retrieve env q qtext
         (st\<lparr>query_rows := query_rows st @
               [\<lparr>query_id = q, query_text = qtext, parsed_data = JNull\<rparr>]\<rparr>)
       = (st2, Inr matched)"
    and answer: "generate_content env (DecisionPrompt qtext matched) = Inr answer"
    and parsed: "json_loads env (strip_fences (strip answer)) = Inr (Some (JObj items))"
    and missing: "map_of items ''decision'' = None"
    and row: "row = \<lparr>decision_query = q, decision_status = JStr ''Needs Review'',
                      amount = JNull, justification = JStr ''Insufficient data to decide.'',
                      referenced_clauses = JArr (map JStr matched)\<rparr>"
    and accepted: "store_fault env (DecisionCreate row) = None"
  shows "\<exists>d. fst (process_query env qtext st)
               = st2\<lparr>decision_rows := decision_rows st2 @ [row]\<rparr>
             \<and> snd (process_query env qtext st)
               = (case json_dumps env (JObj d) of
                    None \<Rightarrow> Response \<lparr>status = 200, body = JObj d\<rparr>
                  | Some e \<Rightarrow> Response (error_response e))
             \<and> map_of d ''decision'' = Some (JStr ''Needs Review'')
             \<and> map_of d ''amount'' = Some JNull
             \<and> map_of d ''justification'' = Some (JStr ''Insufficient data to decide.'')
             \<and> map_of d ''referenced_clauses'' = Some (JArr (map JStr matched))"
proof -
  let ?d = "AList.update ''referenced_clauses'' (JArr (map JStr matched))
             (AList.update ''justification'' (JStr ''Insufficient data to decide.'')
               (AList.update ''amount'' JNull
                 (AList.update ''decision'' (JStr ''Needs Review'') items)))"
  let ?st3 = "st2\<lparr>decision_rows := decision_rows st2 @ [row]\<rparr>"
  have dec: "decide env qtext matched = Inr (JObj items)"
    using answer parsed by (simp add: decide_def)
  have ens: "ensure_keys (JObj items) matched = Inr (JObj ?d)"
    using missing by (simp add: ensure_keys_def)
  have m: "map_of ?d ''decision'' = Some (JStr ''Needs Review'')"
      "map_of ?d ''amount'' = Some JNull"
      "map_of ?d ''justification'' = Some (JStr ''Insufficient data to decide.'')"
      "map_of ?d ''referenced_clauses'' = Some (JArr (map JStr matched))"
    by (simp_all add: update_conv')
  have dof: "decision_of q (JObj ?d) matched = Inr row"
    unfolding decision_of_def py_getitem.simps py_get.simps m row by simp
  have dp: "decide_and_persist env q qtext matched st2 = (?st3, json_response env (JObj ?d))"
    using accepted by (simp add: decide_and_persist_def dec ens dof)
  have tb: "try_body env q qtext
              (st\<lparr>query_rows := query_rows st @
                    [\<lparr>query_id = q, query_text = qtext, parsed_data = JNull\<rparr>]\<rparr>)
            = (?st3, json_response env (JObj ?d))"
    using retrieved dp by (simp add: try_body_def)
  have "fst (process_query env qtext st) = ?st3
        \<and> snd (process_query env qtext st)
            = (case json_dumps env (JObj ?d) of
                 None \<Rightarrow> Response \<lparr>status = 200, body = JObj ?d\<rparr>
               | Some e \<Rightarrow> Response (error_response e))"
  proof (cases "json_dumps env (JObj ?d)")
    case None
    then have "json_response env (JObj ?d) = Inr \<lparr>status = 200, body = JObj ?d\<rparr>"
      by (simp add: json_response_def)
    with tb created None show ?thesis
      unfolding process_query_def q[symmetric] Let_def by simp
  next
    case (Some e)
    then have "json_response env (JObj ?d) = Inl e"
      by (simp add: json_response_def)
    with tb created Some show ?thesis
      unfolding process_query_def q[symmetric] Let_def by simp
  qed
  with m show ?thesis by blast
qed

text \<open>The theorem at a fenced answer \<open>{}\<close> over an empty store.\<close>

theorem missing_decision_key_needs_review_witness:
  "\<exists>d. process_query (example_env (Inr (''```json'' @ [CHR 0x0A] @ ''{}'' @ [CHR 0x0A] @ ''```'')))
          ''Can I claim?'' (example_state [])
        = ((example_state [])
             \<lparr>query_rows := [\<lparr>query_id = 1, query_text = ''Can I claim?'', parsed_data = JObj []\<rparr>],
              decision_rows :=
                [\<lparr>decision_query = 1, decision_status = JStr ''Needs Review'', amount = JNull,
                  justification = JStr ''Insufficient data to decide.'',
                  referenced_clauses = JArr []\<rparr>]\<rparr>,
           Response \<lparr>status = 200, body = JObj d\<rparr>)
      \<and> map_of d ''decision'' = Some (JStr ''Needs Review'')"
proof -
  let ?env = "example_env (Inr (''```json'' @ [CHR 0x0A] @ ''{}'' @ [CHR 0x0A] @ ''```''))"
  let ?st2 = "(example_state [])
                \<lparr>query_rows := [\<lparr>query_id = 1, query_text = ''Can I claim?'', parsed_data = JObj []\<rparr>]\<rparr>"
  have c: "store_fault ?env (QueryCreate ''Can I claim?'') = None"
    by (simp add: example_env_def)
  have q: "(1::nat) = fresh_id (map query_id (query_rows (example_state [])))"
    by (simp add: fresh_id_def example_state_def)
  have r: "retrieve ?env 1 ''Can I claim?''
             ((example_state [])\<lparr>query_rows := query_rows (example_state []) @
                 [\<lparr>query_id = 1, query_text = ''Can I claim?'', parsed_data = JNull\<rparr>]\<rparr>)
           = (?st2, Inr [])"
    by (simp add: retrieve_def parse_query_def save_parsed_def semantic_search_def
          build_faiss_index_def resolve_def example_env_def example_state_def Let_def
          strip_fences_def strip_def isspace_def)
  have a: "generate_content ?env (DecisionPrompt ''Can I claim?'' [])
             = Inr (''```json'' @ [CHR 0x0A] @ ''{}'' @ [CHR 0x0A] @ ''```'')"
    by (simp add: example_env_def)
  have p: "json_loads ?env (strip_fences (strip (''```json'' @ [CHR 0x0A] @ ''{}'' @ [CHR 0x0A] @ ''```'')))
             = Inr (Some (JObj []))"
    unfolding strip_fences_example by (simp add: example_env_def)
  have s: "store_fault ?env (DecisionCreate
             \<lparr>decision_query = 1, decision_status = JStr ''Needs Review'', amount = JNull,
              justification = JStr ''Insufficient data to decide.'',
              referenced_clauses = JArr (map JStr [])\<rparr>) = None"
    by (simp add: example_env_def)
  have m: "map_of ([]::(string \<times> json) list) ''decision'' = None" by simp
  have j: "json_dumps (example_env a) d = None" for a d
    by (simp add: example_env_def)
  from missing_decision_key_needs_review[OF c q r a p m refl s] obtain d
    where f: "fst (process_query ?env ''Can I claim?'' (example_state []))
                = ?st2\<lparr>decision_rows := decision_rows ?st2 @
                     [\<lparr>decision_query = 1, decision_status = JStr ''Needs Review'', amount = JNull,
                       justification = JStr ''Insufficient data to decide.'',
                       referenced_clauses = JArr (map JStr [])\<rparr>]\<rparr>"
      and g: "snd (process_query ?env ''Can I claim?'' (example_state []))
                = (case json_dumps ?env (JObj d) of
                     None \<Rightarrow> Response \<lparr>status = 200, body = JObj d\<rparr>
                   | Some e \<Rightarrow> Response (error_response e))"
      and k: "map_of d ''decision'' = Some (JStr ''Needs Review'')"
    by blast
  from g have g': "snd (process_query ?env ''Can I claim?'' (example_state []))
                = Response \<lparr>status = 200, body = JObj d\<rparr>"
    by (simp add: j)
  have "process_query ?env ''Can I claim?'' (example_state [])
          = (fst (process_query ?env ''Can I claim?'' (example_state [])),
             snd (process_query ?env ''Can I claim?'' (example_state [])))"
    by simp
  then have "process_query ?env ''Can I claim?'' (example_state [])
          = ((example_state [])
               \<lparr>query_rows := [\<lparr>query_id = 1, query_text = ''Can I claim?'', parsed_data = JObj []\<rparr>],
                decision_rows :=
                  [\<lparr>decision_query = 1, decision_status = JStr ''Needs Review'', amount = JNull,
                    justification = JStr ''Insufficient data to decide.'',
                    referenced_clauses = JArr []\<rparr>]\<rparr>,
             Response \<lparr>status = 200, body = JObj d\<rparr>)"
    unfolding f g' by (simp add: example_state_def)
  with k show ?thesis by blast
qed

text \<open>
  Claim C4 as stated fails: the answer \<open>[]\<close> parses as JSON and has no key \<open>decision\<close>,
  the assignment of line 231 raises a TypeError on the list, and the \<open>except\<close> branch
  answers 500 with no Decision persisted.
\<close>

theorem non_object_answer_counterexample:
  "json_loads (example_env (Inr ''[]'')) (strip_fences (strip ''[]'')) = Inr (Some (JArr []))
   \<and> py_in ''decision'' (JArr []) = Inr False
   \<and> process_query (example_env (Inr ''[]'')) ''Can I claim?'' (example_state [])
     = ((example_state [])
          \<lparr>query_rows := [\<lparr>query_id = 1, query_text = ''Can I claim?'', parsed_data = JArr []\<rparr>]\<rparr>,
        Response (error_response
                  (TypeError ''list indices must be integers or slices, not str'')))
   \<and> decision_rows (fst (process_query (example_env (Inr ''[]'')) ''Can I claim?'' (example_state [])))
     = []"
  by (simp add: process_query_def try_body_def retrieve_def parse_query_def save_parsed_def
        semantic_search_def build_faiss_index_def resolve_def decide_and_persist_def decide_def
        ensure_keys_def example_env_def example_state_def Let_def fresh_id_def
        strip_fences_def strip_def isspace_def)

text \<open>
  Claim C5. Once the Query row is created, \<open>process_query\<close> always returns a response and
  never lets an exception through: the response has status 200, or it is the response of
  the \<open>except\<close> branch, status 500 with \<open>Needs Review\<close>, amount null, a justification that
  holds the message of the exception and no referenced clauses. Every exception that the
  body of the \<open>try\<close> raises ends in that response, in particular a transport failure of
  the completion service at the parse prompt or at the decision prompt.
\<close>

theorem query_path_always_answers:
  fixes env :: "('v, 'd::linorder) env"
  assumes "store_fault env (QueryCreate qtext) = None"
  shows "\<exists>st' r. process_query env qtext st = (st', Response r)
     \<and> (status r = 200
        \<or> (\<exists>e. r = \<lparr>status = 500,
                     body = JObj [(''decision'', JStr ''Needs Review''), (''amount'', JNull),
                                  (''justification'',
                                   JStr ([CHR 0xE2, CHR 0x9D, CHR 0x8C] @ '' Error: '' @ str_exn e)),
                                  (''referenced_clauses'', JArr [])]\<rparr>))
     \<and> (\<forall>st1 e. try_body env (fresh_id (map query_id (query_rows st))) qtext
                    (st\<lparr>query_rows := query_rows st @
                          [\<lparr>query_id = fresh_id (map query_id (query_rows st)),
                            query_text = qtext, parsed_data = JNull\<rparr>]\<rparr>) = (st1, Inl e)
                 \<longrightarrow> st' = st1 \<and> r = error_response e)
     \<and> (\<forall>e. generate_content env (ParsePrompt qtext) = Inl e \<longrightarrow> r = error_response e)
     \<and> ((\<forall>m. \<exists>e. generate_content env (DecisionPrompt qtext m) = Inl e)
          \<longrightarrow> (\<exists>e. r = error_response e))"
proof -
  let ?q = "fresh_id (map query_id (query_rows st))"
  let ?st0 = "st\<lparr>query_rows := query_rows st @
                   [\<lparr>query_id = ?q, query_text = qtext, parsed_data = JNull\<rparr>]\<rparr>"
  obtain st1 res where t: "try_body env ?q qtext ?st0 = (st1, res)"
    by (cases "try_body env ?q qtext ?st0")
  show ?thesis
  proof (cases res)
    case (Inl e)
    with t assms have p: "process_query env qtext st = (st1, Response (error_response e))"
      by (simp add: process_query_def Let_def)
    have "\<forall>e'. generate_content env (ParsePrompt qtext) = Inl e' \<longrightarrow> e = e'"
      using t Inl try_body_parse_failure[of env qtext _ ?q ?st0] by auto
    with p t Inl show ?thesis by (auto simp: error_response_def)
  next
    case (Inr r)
    with t assms have p: "process_query env qtext st = (st1, Response r)"
      by (simp add: process_query_def Let_def)
    from t Inr have s: "status r = 200" using try_body_Inr[of env ?q qtext ?st0 st1 r] by simp
    have np: "\<forall>e. generate_content env (ParsePrompt qtext) \<noteq> Inl e"
      using t Inr try_body_parse_failure[of env qtext _ ?q ?st0] by auto
    have nd: "\<not> (\<forall>m. \<exists>e. generate_content env (DecisionPrompt qtext m) = Inl e)"
    proof
      assume a: "\<forall>m. \<exists>e. generate_content env (DecisionPrompt qtext m) = Inl e"
      from t Inr try_body_Inr_answer[of env ?q qtext ?st0 st1 r] obtain m answer
        where "generate_content env (DecisionPrompt qtext m) = Inr answer" by blast
      moreover from a obtain e where "generate_content env (DecisionPrompt qtext m) = Inl e"
        by blast
      ultimately show False by simp
    qed
    from p s np nd t Inr show ?thesis by auto
  qed
qed

text \<open>The theorem at a completion service that is unavailable.\<close>

theorem query_path_always_answers_witness:
  "\<exists>st'. process_query (example_env (Inl (Raised ''503 Service Unavailable'')))
            ''Can I claim?'' (example_state [])
         = (st', Response (error_response (Raised ''503 Service Unavailable'')))"
proof -
  let ?env = "example_env (Inl (Raised ''503 Service Unavailable''))"
  have c: "store_fault ?env (QueryCreate ''Can I claim?'') = None"
    by (simp add: example_env_def)
  have g: "generate_content ?env (ParsePrompt ''Can I claim?'')
             = Inl (Raised ''503 Service Unavailable'')"
    by (simp add: example_env_def)
  from query_path_always_answers[OF c, of "example_state []"] obtain st' r
    where p: "process_query ?env ''Can I claim?'' (example_state []) = (st', Response r)"
      and h: "\<forall>e. generate_content ?env (ParsePrompt ''Can I claim?'') = Inl e
                \<longrightarrow> r = error_response e"
    by blast
  from h g have "r = error_response (Raised ''503 Service Unavailable'')" by blast
  with p show ?thesis by blast
qed






end
